theory Spec2Isabelle
  imports
    Main
    "HOL-Library.Word"
    "HOL-Library.Sublist"
    "HOL-Library.Char_ord"
    "HOL-Library.List_Lexorder"
    "HOL-Library.Multiset"
begin

section \<open>txnstats: statistics over the collections of a mgo/txn database\<close>

text \<open>
  The development follows \<^verbatim>\<open>doc.go\<close> and \<^verbatim>\<open>txnstats.go\<close>. Go's \<^verbatim>\<open>int\<close> is
  modelled as a 64-bit word (its width on the 64-bit platforms the tool is built for):
  \<open>+\<close> wraps around, and the comparisons of the source are the signed ones, \<open>sint\<close>
  reading a word as the Go value.
\<close>

subsection \<open>Integers, strings and formatting\<close>

type_synonym goint = "64 word"

text \<open>\<^verbatim>\<open>len(xs)\<close> of a slice.\<close>

definition len :: "'a list \<Rightarrow> goint" where
  "len xs = of_nat (length xs)"

text \<open>The verb \<^verbatim>\<open>%d\<close> of package fmt: a signed decimal numeral.\<close>

fun dec_nat :: "nat \<Rightarrow> string" where
  "dec_nat n =
     (if n < 10 then [''0123456789'' ! n]
      else dec_nat (n div 10) @ [''0123456789'' ! (n mod 10)])"

declare dec_nat.simps [simp del]

definition fmt_d :: "int \<Rightarrow> string" where
  "fmt_d i = (if i < 0 then ''-'' @ dec_nat (nat (- i)) else dec_nat (nat i))"

subsection \<open>doc.go: the documents and the transaction state\<close>

type_synonym state = goint

definition tinvalid :: state where "tinvalid = 0"
definition tpreparing :: state where "tpreparing = 1"
definition tprepared :: state where "tprepared = 2"
definition taborting :: state where "taborting = 3"
definition tapplying :: state where "tapplying = 4"
definition taborted :: state where "taborted = 5"
definition tapplied :: state where "tapplied = 6"
definition numStates :: state where "numStates = 7"

text \<open>\<^verbatim>\<open>func (s state) String() string\<close>: the switch, then the fallback of \<^verbatim>\<open>Sprintf\<close>.\<close>

definition String :: "state \<Rightarrow> string" where
  "String s =
     (if s = tinvalid then ''invalid''
      else if s = tpreparing then ''preparing''
      else if s = tprepared then ''prepared''
      else if s = taborting then ''aborting''
      else if s = tapplying then ''applying''
      else if s = taborted then ''aborted''
      else if s = tapplied then ''applied''
      else ''unknown state: '' @ fmt_d (sint s))"

definition MarshalText :: "state \<Rightarrow> string" where
  "MarshalText s = String s"

record docDoc =
  Queue :: "string list"

text \<open>\<^verbatim>\<open>txnDoc\<close>; the operations of package txn stay abstract (\<open>'op\<close>).\<close>

record 'op txnDoc =
  Id :: string
  State :: state
  Ops :: "'op list"
  Nonce :: string

subsection \<open>Errors: the driver's, errgo's and those of package parallel\<close>

text \<open>
  \<open>Cause m\<close> is an error of the driver whose message is \<open>m\<close>. \<open>ErrgoErr m e\<close>
  is errgo's \<^verbatim>\<open>Err\<close> with message \<open>m\<close> and underlying error \<open>e\<close>, \<open>Errors\<close> the
  error list that \<^verbatim>\<open>Run.Wait\<close> of package parallel returns.
\<close>

datatype error = Cause string | ErrgoErr string error | Errors "error list"

fun Error :: "error \<Rightarrow> string" where
  "Error (Cause m) = m"
| "Error (ErrgoErr m e) = (if m = [] then Error e else m @ '': '' @ Error e)"
| "Error (Errors []) = ''no error''"
| "Error (Errors [e]) = Error e"
| "Error (Errors (e # e' # es)) =
     Error e @ '' (and '' @ fmt_d (int (length (e' # es))) @ '' more)''"

text \<open>\<^verbatim>\<open>errgo.Notef(err, format, args...)\<close>, the message already formatted, and \<^verbatim>\<open>errgo.Mask(err)\<close>.\<close>

definition Notef :: "error \<Rightarrow> string \<Rightarrow> error" where
  "Notef underlying msg = ErrgoErr msg underlying"

definition Mask :: "error \<Rightarrow> error" where
  "Mask underlying = ErrgoErr [] underlying"

text \<open>
  The verb \<^verbatim>\<open>%q\<close> on a string (\<^verbatim>\<open>strconv.Quote\<close>), byte by byte: exact on ASCII.
  A byte from 128 on is written \<^verbatim>\<open>\xNN\<close>, which is Go's rendering of a byte that is
  not part of a valid UTF-8 sequence.
\<close>

definition hex2 :: "nat \<Rightarrow> string" where
  "hex2 n = [''0123456789abcdef'' ! (n div 16 mod 16), ''0123456789abcdef'' ! (n mod 16)]"

definition quote_byte :: "char \<Rightarrow> string" where
  "quote_byte c =
     (let n = (of_char c :: nat) in
      if n = 34 then [CHR 0x5C, CHR 0x22]
      else if n = 92 then [CHR 0x5C, CHR 0x5C]
      else if 32 \<le> n \<and> n < 127 then [c]
      else if n = 7 then [CHR 0x5C, CHR ''a'']
      else if n = 8 then [CHR 0x5C, CHR ''b'']
      else if n = 12 then [CHR 0x5C, CHR ''f'']
      else if n = 10 then [CHR 0x5C, CHR ''n'']
      else if n = 13 then [CHR 0x5C, CHR ''r'']
      else if n = 9 then [CHR 0x5C, CHR ''t'']
      else if n = 11 then [CHR 0x5C, CHR ''v'']
      else [CHR 0x5C, CHR ''x''] @ hex2 n)"

definition fmt_q :: "string \<Rightarrow> string" where
  "fmt_q s = [CHR 0x22] @ concat (map quote_byte s) @ [CHR 0x22]"

subsection \<open>The driver: cursors, collections, the database\<close>

text \<open>
  A cursor (\<^verbatim>\<open>mgo.Iter\<close>) over documents decoded as \<open>'d\<close>: \<open>pending\<close> are the
  documents for which \<^verbatim>\<open>Next\<close> returns true, in the order of the stream; \<open>failure\<close> is
  what \<^verbatim>\<open>Err\<close> returns once \<^verbatim>\<open>Next\<close> has returned false.
\<close>

record 'd Iter =
  pending :: "'d list"
  failure :: "error option"

definition Err :: "'d Iter \<Rightarrow> error option" where
  "Err iter = failure iter"

text \<open>
  What the database answers: \<open>CollectionNames\<close> to \<^verbatim>\<open>db.CollectionNames()\<close>; for the
  collection of a name, \<open>FindQueue\<close> to the query of \<^verbatim>\<open>getCollectionStats\<close>,
  \<open>FindTxns\<close> to the query of \<^verbatim>\<open>getInProgressStats\<close>, and \<open>Count\<close> to \<^verbatim>\<open>c.Count()\<close>.
\<close>

record 'op MgoDatabase =
  CollectionNames :: "error + string list"
  FindQueue :: "string \<Rightarrow> docDoc Iter"
  FindTxns :: "string \<Rightarrow> 'op txnDoc Iter"
  Count :: "string \<Rightarrow> error + goint"

record 'op Collection =
  DB :: "'op MgoDatabase"
  Name :: string

text \<open>\<^verbatim>\<open>db.C(name)\<close>.\<close>

definition C :: "'op MgoDatabase \<Rightarrow> string \<Rightarrow> 'op Collection" where
  "C db name = \<lparr>DB = db, Name = name\<rparr>"

subsection \<open>txnstats.go: the statistics\<close>

record CollectionStats =
  DocCount :: goint
  MaxQueued :: goint
  MinQueued :: goint
  TotalQueued :: goint

record LogStats =
  LogDocCount :: goint

record InProgressStats =
  States :: "state \<rightharpoonup> goint"
  MaxOps :: goint
  TotalOps :: goint
  TotalTxns :: goint

record Stats =
  Collections :: "string \<rightharpoonup> CollectionStats"
  InProgress :: InProgressStats
  Log :: LogStats

text \<open>The zero values of the structs (\<^verbatim>\<open>var stats CollectionStats\<close>); a nil map has no key.\<close>

definition zeroCollectionStats :: CollectionStats where
  "zeroCollectionStats = \<lparr>DocCount = 0, MaxQueued = 0, MinQueued = 0, TotalQueued = 0\<rparr>"

definition zeroLogStats :: LogStats where
  "zeroLogStats = \<lparr>LogDocCount = 0\<rparr>"

definition zeroInProgressStats :: InProgressStats where
  "zeroInProgressStats = \<lparr>States = Map.empty, MaxOps = 0, TotalOps = 0, TotalTxns = 0\<rparr>"

text \<open>\<^verbatim>\<open>wantCollectionStats\<close>.\<close>

definition wantCollectionStats :: "string \<Rightarrow> bool" where
  "wantCollectionStats collName \<longleftrightarrow> collName \<noteq> ''txns'' \<and> \<not> prefix ''system.'' collName"

text \<open>\<^verbatim>\<open>getLogStats\<close>.\<close>

definition getLogStats :: "'op Collection \<Rightarrow> LogStats \<times> error option" where
  "getLogStats c =
     (case Count (DB c) (Name c) of
        Inl err \<Rightarrow>
          (zeroLogStats, Some (Notef err (''cannot count items in collection '' @ fmt_q (Name c))))
      | Inr n \<Rightarrow> (\<lparr>LogDocCount = n\<rparr>, None))"

text \<open>
  \<^verbatim>\<open>m[k]\<close> on a map of counts: 0 at a key the map does not have.
\<close>

definition mapIndex :: "('k \<rightharpoonup> goint) \<Rightarrow> 'k \<Rightarrow> goint" where
  "mapIndex m k = (case m k of None \<Rightarrow> 0 | Some n \<Rightarrow> n)"

text \<open>
  The body of the loop of \<^verbatim>\<open>getInProgressStats\<close>, and the loop, run on the
  documents that \<^verbatim>\<open>Next\<close> delivers.
\<close>

definition txnStep :: "InProgressStats \<Rightarrow> 'op txnDoc \<Rightarrow> InProgressStats" where
  "txnStep stats doc =
     (let stats = stats\<lparr>TotalTxns := TotalTxns stats + 1\<rparr>;
          stats = stats\<lparr>TotalOps := TotalOps stats + len (Ops doc)\<rparr>;
          stats = (if MaxOps stats <s len (Ops doc) then stats\<lparr>MaxOps := len (Ops doc)\<rparr>
                   else stats);
          stats = stats\<lparr>States := (States stats)(State doc \<mapsto>
                                      mapIndex (States stats) (State doc) + 1)\<rparr>
      in stats)"

fun scanTxns :: "InProgressStats \<Rightarrow> 'op txnDoc list \<Rightarrow> InProgressStats" where
  "scanTxns stats [] = stats"
| "scanTxns stats (doc # rest) = scanTxns (txnStep stats doc) rest"

definition getInProgressStats :: "'op Collection \<Rightarrow> InProgressStats \<times> error option" where
  "getInProgressStats c =
     (let iter = FindTxns (DB c) (Name c);
          stats = scanTxns zeroInProgressStats (pending iter)
      in case Err iter of
           Some err \<Rightarrow>
             (stats, Some (Notef err (''iteraction over collection '' @ fmt_q (Name c) @ '' failed'')))
         | None \<Rightarrow> (stats, None))"

text \<open>
  The body of the loop of \<^verbatim>\<open>getCollectionStats\<close>, with the loop's variable
  \<^verbatim>\<open>first\<close>, and the loop.
\<close>

definition queueStep :: "bool \<Rightarrow> CollectionStats \<Rightarrow> docDoc \<Rightarrow> CollectionStats" where
  "queueStep first stats doc =
     (let stats = stats\<lparr>DocCount := DocCount stats + 1\<rparr>;
          stats = stats\<lparr>TotalQueued := TotalQueued stats + len (Queue doc)\<rparr>
      in if first
         then stats\<lparr>MaxQueued := len (Queue doc), MinQueued := len (Queue doc)\<rparr>
         else
           (let stats = (if MaxQueued stats <s len (Queue doc)
                         then stats\<lparr>MaxQueued := len (Queue doc)\<rparr> else stats);
                stats = (if len (Queue doc) <s MinQueued stats
                         then stats\<lparr>MinQueued := len (Queue doc)\<rparr> else stats)
            in stats))"

fun scanQueue :: "bool \<Rightarrow> CollectionStats \<Rightarrow> docDoc list \<Rightarrow> CollectionStats" where
  "scanQueue first stats [] = stats"
| "scanQueue first stats (doc # rest) = scanQueue False (queueStep first stats doc) rest"

definition getCollectionStats :: "'op Collection \<Rightarrow> CollectionStats \<times> error option" where
  "getCollectionStats c =
     (let iter = FindQueue (DB c) (Name c);
          stats = scanQueue True zeroCollectionStats (pending iter)
      in case Err iter of
           Some err \<Rightarrow>
             (stats, Some (Notef err (''iteraction over collection '' @ fmt_q (Name c) @ '' failed'')))
         | None \<Rightarrow> (stats, None))"

subsection \<open>txnstats.go: the command line and the connection\<close>

record commandLineArgs =
  hostname :: string
  port :: string
  ssl :: bool
  username :: string
  password :: string

text \<open>Leaving the process: the exit status and what was written to the error stream.\<close>

datatype exit = Exit int string

text \<open>The defaults that \<^verbatim>\<open>StringVar\<close> and \<^verbatim>\<open>BoolVar\<close> give the five flags.\<close>

definition flagDefaults :: commandLineArgs where
  "flagDefaults =
     \<lparr>hostname = ''localhost'', port = ''37017'', ssl = True, username = ''admin'', password = ''''\<rparr>"

text \<open>
  \<^verbatim>\<open>flags.Parse(os.Args[1:])\<close> on a flag set with \<^verbatim>\<open>flag.ExitOnError\<close>. With no
  argument the loop of \<^verbatim>\<open>Parse\<close> ends at once and the variables keep their defaults.
  What package flag does with arguments is the parameter \<open>pkg\<close>: it leaves the
  process (a syntax error, \<^verbatim>\<open>-help\<close>) or returns the values.
\<close>

type_synonym flagPkg = "commandLineArgs \<Rightarrow> string list \<Rightarrow> exit + commandLineArgs"

definition flagsParse :: "flagPkg \<Rightarrow> commandLineArgs \<Rightarrow> string list \<Rightarrow> exit + commandLineArgs" where
  "flagsParse pkg a arguments = (if arguments = [] then Inr a else pkg a arguments)"

text \<open>\<^verbatim>\<open>commandLine\<close>; \<open>argv\<close> is \<^verbatim>\<open>os.Args[1:]\<close>.\<close>

definition commandLine :: "flagPkg \<Rightarrow> string list \<Rightarrow> exit + commandLineArgs" where
  "commandLine pkg argv =
     (case flagsParse pkg flagDefaults argv of
        Inl ex \<Rightarrow> Inl ex
      | Inr a \<Rightarrow>
          if password a = '''' \<and> username a \<noteq> ''''
          then Inl (Exit 2 (''error: -password must be used if username is provided'' @ [CHR 0x0A]))
          else Inr a)"

datatype dialer = dialSSL

record DialInfo =
  Addrs :: "string list"
  Database :: string
  Username :: string
  Password :: string
  DialServer :: "dialer option"

text \<open>\<^verbatim>\<open>net.JoinHostPort\<close>: a host with a colon is put in brackets.\<close>

definition JoinHostPort :: "string \<Rightarrow> string \<Rightarrow> string" where
  "JoinHostPort host prt =
     (if CHR '':'' \<in> set host then ''['' @ host @ '']:'' @ prt else host @ '':'' @ prt)"

text \<open>The \<^verbatim>\<open>DialInfo\<close> that \<^verbatim>\<open>dial\<close> builds.\<close>

definition dialInfo :: "commandLineArgs \<Rightarrow> DialInfo" where
  "dialInfo args =
     (let info = \<lparr>Addrs = [JoinHostPort (hostname args) (port args)], Database = '''',
                   Username = '''', Password = '''', DialServer = None\<rparr>;
          info = (if username args \<noteq> ''''
                  then info\<lparr>Database := ''admin'', Username := username args,
                            Password := password args\<rparr>
                  else info);
          info = (if ssl args then info\<lparr>DialServer := Some dialSSL\<rparr> else info)
      in info)"

text \<open>A session gives the database of a name (\<^verbatim>\<open>session.DB\<close>).\<close>

type_synonym 'op Session = "string \<Rightarrow> 'op MgoDatabase"

text \<open>
  What is outside the program: package flag, the server that \<^verbatim>\<open>mgo.DialWithInfo\<close>
  reaches, the order in which package parallel collects the errors of the units (the
  documentation of \<^verbatim>\<open>Wait\<close> calls it arbitrary), and the date and time that package
  log writes before a message.
\<close>

record 'op World =
  flagPkg :: flagPkg
  DialWithInfo :: "DialInfo \<Rightarrow> error + 'op Session"
  sched :: "error list \<Rightarrow> error list"
  logHeader :: string

definition dial :: "'op World \<Rightarrow> commandLineArgs \<Rightarrow> error + 'op Session" where
  "dial w args =
     (case DialWithInfo w (dialInfo args) of
        Inl err \<Rightarrow> Inl err
      | Inr session \<Rightarrow> Inr session)"

subsection \<open>txnstats.go: main\<close>

text \<open>The requests sent to the server, in the order in which \<^verbatim>\<open>main\<close> starts them.\<close>

datatype event = EvDial DialInfo | EvCollectionNames | EvFind string | EvCount string

text \<open>
  A run of the program: exit status, error stream, the \<^verbatim>\<open>Stats\<close> value serialized to
  the standard output (\<open>None\<close> when nothing is written), and the requests made.
\<close>

record outcome =
  status :: int
  stderr :: string
  stdout :: "Stats option"
  net :: "event list"

text \<open>
  \<^verbatim>\<open>log.Fatal\<close>: the message of \<^verbatim>\<open>fmt.Sprint\<close> after the header, a newline unless the
  message ends with one, then \<^verbatim>\<open>os.Exit(1)\<close>.
\<close>

definition logFatal :: "string \<Rightarrow> string \<Rightarrow> exit" where
  "logFatal header msg =
     Exit 1 (header @ msg @ (if msg = [] \<or> last msg \<noteq> CHR 0x0A then [CHR 0x0A] else []))"

text \<open>The function that the first loop hands to \<^verbatim>\<open>run.Do\<close> for index \<open>i\<close>.\<close>

definition scanUnit ::
  "'op MgoDatabase \<Rightarrow> nat \<Rightarrow> string \<Rightarrow> CollectionStats list \<Rightarrow> CollectionStats list \<times> error option" where
  "scanUnit db i collName collStats =
     (let c = C db collName in
      case getCollectionStats c of
        (stats, Some err) \<Rightarrow>
          (collStats, Some (Notef err (''cannot gather stats on '' @ Name c @ '': '' @ Error err)))
      | (stats, None) \<Rightarrow> (collStats[i := stats], None))"

text \<open>
  The first loop over \<^verbatim>\<open>collNames\<close>, from index \<open>i\<close> on: the slots written and the
  results of the units started. A unit writes its own slot only, so the slots do not
  depend on the interleaving.
\<close>

fun scanLoop ::
  "'op MgoDatabase \<Rightarrow> nat \<Rightarrow> string list \<Rightarrow> CollectionStats list \<Rightarrow>
     CollectionStats list \<times> error option list" where
  "scanLoop db i [] collStats = (collStats, [])"
| "scanLoop db i (collName # rest) collStats =
     (if \<not> wantCollectionStats collName then scanLoop db (i + 1) rest collStats
      else
        (let (collStats, r) = scanUnit db i collName collStats;
             (collStats, rs) = scanLoop db (i + 1) rest collStats
         in (collStats, r # rs)))"

text \<open>The two units started after the loop.\<close>

definition logUnit :: "'op MgoDatabase \<Rightarrow> Stats \<Rightarrow> Stats \<times> error option" where
  "logUnit db stats =
     (case getLogStats (C db ''txns.log'') of
        (logStats, Some err) \<Rightarrow> (stats, Some (Mask err))
      | (logStats, None) \<Rightarrow> (stats\<lparr>Log := logStats\<rparr>, None))"

definition inProgressUnit :: "'op MgoDatabase \<Rightarrow> Stats \<Rightarrow> Stats \<times> error option" where
  "inProgressUnit db stats =
     (case getInProgressStats (C db ''txns'') of
        (inProgressStats, Some err) \<Rightarrow> (stats, Some (Mask err))
      | (inProgressStats, None) \<Rightarrow> (stats\<lparr>InProgress := inProgressStats\<rparr>, None))"

text \<open>\<^verbatim>\<open>run.Wait()\<close>: nil when no unit failed, else the errors in the order of \<open>order\<close>.\<close>

definition Wait :: "(error list \<Rightarrow> error list) \<Rightarrow> error option list \<Rightarrow> error option" where
  "Wait order results =
     (let errs = List.map_filter id results
      in if errs = [] then None else Some (Errors (order errs)))"

text \<open>The second loop over \<^verbatim>\<open>collNames\<close>, from index \<open>i\<close> on.\<close>

fun mergeLoop :: "nat \<Rightarrow> string list \<Rightarrow> CollectionStats list \<Rightarrow> Stats \<Rightarrow> Stats" where
  "mergeLoop i [] collStats stats = stats"
| "mergeLoop i (collName # rest) collStats stats =
     (if \<not> wantCollectionStats collName then mergeLoop (i + 1) rest collStats stats
      else if 0 <s TotalQueued (collStats ! i)
      then mergeLoop (i + 1) rest collStats
             (stats\<lparr>Collections := (Collections stats)(collName \<mapsto> collStats ! i)\<rparr>)
      else mergeLoop (i + 1) rest collStats stats)"

definition exited :: "exit \<Rightarrow> event list \<Rightarrow> outcome" where
  "exited ex evs = (case ex of Exit st msg \<Rightarrow> \<lparr>status = st, stderr = msg, stdout = None, net = evs\<rparr>)"

text \<open>
  \<^verbatim>\<open>main\<close>. Both calls of \<^verbatim>\<open>log.Fatal\<close> before the scans pass the format string and the
  error as two operands, which \<^verbatim>\<open>fmt.Sprint\<close> writes one after the other.
\<close>

definition main :: "'op World \<Rightarrow> string list \<Rightarrow> outcome" where
  "main w argv =
     (case commandLine (flagPkg w) argv of
        Inl ex \<Rightarrow> exited ex []
      | Inr args \<Rightarrow>
          (case dial w args of
             Inl err \<Rightarrow>
               exited (logFatal (logHeader w) (''cannot dial mongodb: %v'' @ Error err))
                 [EvDial (dialInfo args)]
           | Inr session \<Rightarrow>
               (let db = session ''juju'' in
                case CollectionNames db of
                  Inl err \<Rightarrow>
                    exited (logFatal (logHeader w) (''cannot dial mongodb: %v'' @ Error err))
                      [EvDial (dialInfo args), EvCollectionNames]
                | Inr collNames \<Rightarrow>
                    (let collNames = sort collNames;
                         collStats = replicate (length collNames) zeroCollectionStats;
                         (collStats, rs) = scanLoop db 0 collNames collStats;
                         stats = \<lparr>Collections = Map.empty, InProgress = zeroInProgressStats,
                                   Log = zeroLogStats\<rparr>;
                         (stats, r1) = logUnit db stats;
                         (stats, r2) = inProgressUnit db stats;
                         evs = [EvDial (dialInfo args), EvCollectionNames]
                               @ map EvFind (filter wantCollectionStats collNames)
                               @ [EvCount ''txns.log'', EvFind ''txns'']
                     in case Wait (sched w) (rs @ [r1, r2]) of
                          Some err \<Rightarrow> exited (logFatal (logHeader w) (Error err)) evs
                        | None \<Rightarrow>
                            \<lparr>status = 0, stderr = '''',
                             stdout = Some (mergeLoop 0 collNames collStats stats),
                             net = evs\<rparr>))))"

subsection \<open>A database, after the end-to-end scenario of the specification\<close>

text \<open>
  \<open>queueDocs ns\<close> are documents whose queues have the lengths \<open>ns\<close>, \<open>txnOf s n\<close>
  is a transaction in state \<open>s\<close> with \<open>n\<close> operations.
\<close>

definition queueDocs :: "nat list \<Rightarrow> docDoc list" where
  "queueDocs ns = map (\<lambda>n. \<lparr>Queue = replicate n ''token''\<rparr>) ns"

definition txnOf :: "state \<Rightarrow> nat \<Rightarrow> unit txnDoc" where
  "txnOf s n = \<lparr>Id = ''id'', State = s, Ops = replicate n (), Nonce = ''''\<rparr>"

definition exampleDB :: "unit MgoDatabase" where
  "exampleDB =
     \<lparr>CollectionNames = Inr [''txns'', ''charms'', ''system.indexes'', ''txns.log'', ''units''],
      FindQueue = (\<lambda>name.
        if name = ''charms'' then \<lparr>pending = queueDocs [0, 2, 1], failure = None\<rparr>
        else if name = ''txns.log'' then \<lparr>pending = queueDocs [1], failure = None\<rparr>
        else \<lparr>pending = queueDocs [0, 0], failure = None\<rparr>),
      FindTxns = (\<lambda>name. \<lparr>pending = [txnOf 1 3, txnOf 6 1], failure = None\<rparr>),
      Count = (\<lambda>name. Inr 5)\<rparr>"

definition exampleFlagPkg :: flagPkg where
  "exampleFlagPkg a arguments =
     (if arguments = [''-password'', ''secret''] then Inr (a\<lparr>password := ''secret''\<rparr>)
      else if arguments = [''-username'', ''bob''] then Inr (a\<lparr>username := ''bob''\<rparr>)
      else Inl (Exit 2 ''flag provided but not defined''))"

definition exampleWorld :: "unit World" where
  "exampleWorld =
     \<lparr>flagPkg = exampleFlagPkg, DialWithInfo = (\<lambda>info. Inr (\<lambda>name. exampleDB)),
      sched = rev, logHeader = ''2026/10/31 12:00:00 ''\<rparr>"

text \<open>The same database with no transaction, and one where the cursor over \<open>foo\<close> fails.\<close>

definition emptyTxnsDB :: "unit MgoDatabase" where
  "emptyTxnsDB = exampleDB\<lparr>FindTxns := (\<lambda>name. \<lparr>pending = [], failure = None\<rparr>)\<rparr>"

definition failingDB :: "unit MgoDatabase" where
  "failingDB =
     exampleDB\<lparr>CollectionNames := Inr [''txns'', ''foo'', ''charms''],
       FindQueue := (\<lambda>name.
         if name = ''foo''
         then \<lparr>pending = queueDocs [1], failure = Some (Cause ''read tcp: i/o timeout'')\<rparr>
         else FindQueue exampleDB name)\<rparr>"

definition failingWorld :: "unit World" where
  "failingWorld = exampleWorld\<lparr>DialWithInfo := (\<lambda>info. Inr (\<lambda>name. failingDB))\<rparr>"

section \<open>Properties\<close>

subsection \<open>Reading the counters\<close>

lemma sint_len: "length xs < 2 ^ 63 \<Longrightarrow> sint (len xs) = int (length xs)"
proof -
  assume a: "length xs < 2 ^ 63"
  have "int (length xs) < 2 ^ 63" using a by (metis of_nat_less_iff of_nat_numeral of_nat_power)
  then have "signed_take_bit 63 (int (length xs)) = int (length xs)"
    by (intro signed_take_bit_int_eq_self) simp_all
  then show ?thesis by (simp add: len_def signed_of_nat)
qed

lemma scanQueue_DocCount:
  "DocCount (scanQueue first stats docs) = DocCount stats + of_nat (length docs)"
  by (induction docs arbitrary: first stats) (simp_all add: queueStep_def Let_def)

lemma scanQueue_TotalQueued:
  "TotalQueued (scanQueue first stats docs) =
     TotalQueued stats + of_nat (\<Sum>d\<leftarrow>docs. length (Queue d))"
  by (induction docs arbitrary: first stats) (simp_all add: queueStep_def Let_def len_def)

lemma Max_insert_max:
  fixes a b :: int
  assumes "finite S"
  shows "Max (insert a (insert b S)) = Max (insert (max a b) S)"
proof (cases "S = {}")
  case True
  then show ?thesis by (simp add: max.commute)
next
  case False
  then show ?thesis using assms by (simp add: max.assoc)
qed

lemma Min_insert_min:
  fixes a b :: int
  assumes "finite S"
  shows "Min (insert a (insert b S)) = Min (insert (min a b) S)"
proof (cases "S = {}")
  case True
  then show ?thesis by (simp add: min.commute)
next
  case False
  then show ?thesis using assms by (simp add: min.assoc)
qed

lemma queueStep_MaxQueued:
  "length (Queue d) < 2 ^ 63 \<Longrightarrow>
   sint (MaxQueued (queueStep False stats d)) = max (sint (MaxQueued stats)) (int (length (Queue d)))"
  by (simp add: queueStep_def Let_def word_sless_alt sint_len)

lemma queueStep_MinQueued:
  "length (Queue d) < 2 ^ 63 \<Longrightarrow>
   sint (MinQueued (queueStep False stats d)) = min (sint (MinQueued stats)) (int (length (Queue d)))"
  by (simp add: queueStep_def Let_def word_sless_alt sint_len)

lemma scanQueue_MaxQueued:
  "\<forall>d \<in> set docs. length (Queue d) < 2 ^ 63 \<Longrightarrow>
   sint (MaxQueued (scanQueue False stats docs)) =
     Max (insert (sint (MaxQueued stats)) ((\<lambda>d. int (length (Queue d))) ` set docs))"
proof (induction docs arbitrary: stats)
  case Nil
  then show ?case by simp
next
  case (Cons d docs)
  have "sint (MaxQueued (scanQueue False stats (d # docs))) =
        Max (insert (max (sint (MaxQueued stats)) (int (length (Queue d))))
               ((\<lambda>d. int (length (Queue d))) ` set docs))"
    using Cons.prems by (simp add: Cons.IH queueStep_MaxQueued)
  also have "\<dots> = Max (insert (sint (MaxQueued stats))
      (insert (int (length (Queue d))) ((\<lambda>d. int (length (Queue d))) ` set docs)))"
    by (rule Max_insert_max [symmetric]) simp
  finally show ?case by simp
qed

lemma scanQueue_MinQueued:
  "\<forall>d \<in> set docs. length (Queue d) < 2 ^ 63 \<Longrightarrow>
   sint (MinQueued (scanQueue False stats docs)) =
     Min (insert (sint (MinQueued stats)) ((\<lambda>d. int (length (Queue d))) ` set docs))"
proof (induction docs arbitrary: stats)
  case Nil
  then show ?case by simp
next
  case (Cons d docs)
  have "sint (MinQueued (scanQueue False stats (d # docs))) =
        Min (insert (min (sint (MinQueued stats)) (int (length (Queue d))))
               ((\<lambda>d. int (length (Queue d))) ` set docs))"
    using Cons.prems by (simp add: Cons.IH queueStep_MinQueued)
  also have "\<dots> = Min (insert (sint (MinQueued stats))
      (insert (int (length (Queue d))) ((\<lambda>d. int (length (Queue d))) ` set docs)))"
    by (rule Min_insert_min [symmetric]) simp
  finally show ?case by simp
qed

lemma sum_list_bound_elem:
  fixes f :: "'a \<Rightarrow> nat"
  shows "sum_list (map f xs) < b \<Longrightarrow> x \<in> set xs \<Longrightarrow> f x < b"
  by (induction xs) auto

lemma sint_of_nat_small: "n < 2 ^ 63 \<Longrightarrow> sint (of_nat n :: goint) = int n"
proof -
  assume a: "n < 2 ^ 63"
  have "int n < 2 ^ 63" using a by (metis of_nat_less_iff of_nat_numeral of_nat_power)
  then have "signed_take_bit 63 (int n) = int n"
    by (intro signed_take_bit_int_eq_self) simp_all
  then show ?thesis by (simp add: signed_of_nat)
qed

lemma int_sum_list: "int (\<Sum>x\<leftarrow>xs. f x) = (\<Sum>x\<leftarrow>xs. int (f x))"
  by (induction xs) simp_all

subsection \<open>The collection scanner\<close>

text \<open>
  Claim C1. Let \<open>docs\<close> be the documents that the cursor of \<^verbatim>\<open>getCollectionStats\<close>
  delivers, with queue lengths \<open>q1, ..., qn\<close>. In the statistics returned (with or without
  an error of the cursor), read as Go integers, \<open>TotalQueued\<close> is the sum of the \<open>qi\<close>,
  \<open>DocCount\<close> is \<open>n\<close>, and for \<open>n > 0\<close> \<open>MaxQueued\<close> and \<open>MinQueued\<close> are the
  largest and the smallest \<open>qi\<close>; for \<open>n = 0\<close> all four fields are 0. The sum and the
  number of documents are taken to fit Go's \<^verbatim>\<open>int\<close>, below \<open>2 ^ 63\<close>.
\<close>

theorem getCollectionStats_sum_extrema_count:
  assumes docs: "pending (FindQueue (DB c) (Name c)) = docs"
    and total: "(\<Sum>d\<leftarrow>docs. length (Queue d)) < 2 ^ 63"
    and count: "length docs < 2 ^ 63"
  shows
    "sint (TotalQueued (fst (getCollectionStats c))) = (\<Sum>d\<leftarrow>docs. int (length (Queue d))) \<and>
     sint (DocCount (fst (getCollectionStats c))) = int (length docs) \<and>
     (docs \<noteq> [] \<longrightarrow>
        sint (MaxQueued (fst (getCollectionStats c))) = Max ((\<lambda>d. int (length (Queue d))) ` set docs) \<and>
        sint (MinQueued (fst (getCollectionStats c))) = Min ((\<lambda>d. int (length (Queue d))) ` set docs)) \<and>
     (docs = [] \<longrightarrow> fst (getCollectionStats c) =
        \<lparr>DocCount = 0, MaxQueued = 0, MinQueued = 0, TotalQueued = 0\<rparr>)"
proof -
  let ?st = "fst (getCollectionStats c)"
  have st: "?st = scanQueue True zeroCollectionStats docs"
    using docs by (simp add: getCollectionStats_def Let_def split: option.splits)
  have each: "\<forall>d \<in> set docs. length (Queue d) < 2 ^ 63"
    using total sum_list_bound_elem [of "\<lambda>d. length (Queue d)" docs] by blast
  have t: "sint (TotalQueued ?st) = (\<Sum>d\<leftarrow>docs. int (length (Queue d)))"
    using total
    by (simp add: st scanQueue_TotalQueued zeroCollectionStats_def sint_of_nat_small
        int_sum_list)
  have n: "sint (DocCount ?st) = int (length docs)"
    using count by (simp add: st scanQueue_DocCount zeroCollectionStats_def sint_of_nat_small)
  have x: "docs \<noteq> [] \<longrightarrow>
        sint (MaxQueued ?st) = Max ((\<lambda>d. int (length (Queue d))) ` set docs) \<and>
        sint (MinQueued ?st) = Min ((\<lambda>d. int (length (Queue d))) ` set docs)"
  proof (cases docs)
    case Nil
    then show ?thesis by simp
  next
    case (Cons d ds)
    have r: "\<forall>d \<in> set ds. length (Queue d) < 2 ^ 63" using each Cons by simp
    have l: "sint (len (Queue d)) = int (length (Queue d))"
      using each Cons by (simp add: sint_len)
    show ?thesis
      using l by (simp add: st Cons scanQueue_MaxQueued [OF r] scanQueue_MinQueued [OF r]
          queueStep_def Let_def)
  qed
  have z: "docs = [] \<longrightarrow> ?st = \<lparr>DocCount = 0, MaxQueued = 0, MinQueued = 0, TotalQueued = 0\<rparr>"
    by (simp add: st zeroCollectionStats_def)
  show ?thesis using t n x z by blast
qed

theorem getCollectionStats_sum_extrema_count_witness:
  "pending (FindQueue (DB (C exampleDB ''charms'')) (Name (C exampleDB ''charms''))) = queueDocs [0, 2, 1] \<and>
   (\<Sum>d\<leftarrow>queueDocs [0, 2, 1]. length (Queue d)) < 2 ^ 63 \<and>
   length (queueDocs [0, 2, 1]) < 2 ^ 63 \<and>
   sint (TotalQueued (fst (getCollectionStats (C exampleDB ''charms'')))) = 3 \<and>
   sint (DocCount (fst (getCollectionStats (C exampleDB ''charms'')))) = 3 \<and>
   sint (MaxQueued (fst (getCollectionStats (C exampleDB ''charms'')))) = 2 \<and>
   sint (MinQueued (fst (getCollectionStats (C exampleDB ''charms'')))) = 0"
proof -
  have h1: "pending (FindQueue (DB (C exampleDB ''charms'')) (Name (C exampleDB ''charms''))) =
      queueDocs [0, 2, 1]"
    by (simp add: C_def exampleDB_def)
  have h2: "(\<Sum>d\<leftarrow>queueDocs [0, 2, 1]. length (Queue d)) < 2 ^ 63"
    by (simp add: queueDocs_def)
  have h3: "length (queueDocs [0, 2, 1]) < 2 ^ 63"
    by (simp add: queueDocs_def)
  show ?thesis
    using h1 h2 h3 getCollectionStats_sum_extrema_count [OF h1 h2 h3]
    by (simp add: queueDocs_def)
qed

subsection \<open>The transaction scanner\<close>

lemma scanTxns_TotalTxns:
  "TotalTxns (scanTxns stats docs) = TotalTxns stats + of_nat (length docs)"
  by (induction docs arbitrary: stats) (simp_all add: txnStep_def Let_def)

lemma scanTxns_TotalOps:
  "TotalOps (scanTxns stats docs) = TotalOps stats + of_nat (\<Sum>d\<leftarrow>docs. length (Ops d))"
  by (induction docs arbitrary: stats) (simp_all add: txnStep_def Let_def len_def)

lemma txnStep_MaxOps:
  "length (Ops d) < 2 ^ 63 \<Longrightarrow>
   sint (MaxOps (txnStep stats d)) = max (sint (MaxOps stats)) (int (length (Ops d)))"
  by (simp add: txnStep_def Let_def word_sless_alt sint_len)

lemma scanTxns_MaxOps:
  "\<forall>d \<in> set docs. length (Ops d) < 2 ^ 63 \<Longrightarrow>
   sint (MaxOps (scanTxns stats docs)) =
     Max (insert (sint (MaxOps stats)) ((\<lambda>d. int (length (Ops d))) ` set docs))"
proof (induction docs arbitrary: stats)
  case Nil
  then show ?case by simp
next
  case (Cons d docs)
  have "sint (MaxOps (scanTxns stats (d # docs))) =
        Max (insert (max (sint (MaxOps stats)) (int (length (Ops d))))
               ((\<lambda>d. int (length (Ops d))) ` set docs))"
    using Cons.prems by (simp add: Cons.IH txnStep_MaxOps)
  also have "\<dots> = Max (insert (sint (MaxOps stats))
      (insert (int (length (Ops d))) ((\<lambda>d. int (length (Ops d))) ` set docs)))"
    by (rule Max_insert_max [symmetric]) simp
  finally show ?case by simp
qed

lemma txnStep_States:
  "States (txnStep stats d) = (States stats)(State d \<mapsto> mapIndex (States stats) (State d) + 1)"
  by (simp add: txnStep_def Let_def)

lemma scanTxns_States:
  "States (scanTxns stats docs) k =
     (if k \<in> State ` set docs
      then Some (mapIndex (States stats) k + of_nat (length (filter (\<lambda>d. State d = k) docs)))
      else States stats k)"
proof (induction docs arbitrary: stats)
  case Nil
  then show ?case by simp
next
  case (Cons d docs)
  have "State d \<notin> State ` set docs \<Longrightarrow> filter (\<lambda>x. State x = State d) docs = []"
    unfolding filter_empty_conv by (metis imageI)
  then show ?case
    by (auto simp: Cons.IH txnStep_States mapIndex_def)
qed

lemma count_list_State:
  "count_list (map State docs) k = length (filter (\<lambda>d. State d = k) docs)"
  by (induction docs) simp_all

lemma sum_State_counts:
  "(\<Sum>k \<in> State ` set docs. int (length (filter (\<lambda>d. State d = k) docs))) = int (length docs)"
proof -
  have "sum (count_list (map State docs)) (set (map State docs)) = length (map State docs)"
    by (rule sum_count_set) simp_all
  then have "(\<Sum>k \<in> State ` set docs. length (filter (\<lambda>d. State d = k) docs)) = length docs"
    by (simp add: count_list_State)
  then show ?thesis by (metis of_nat_sum)
qed

text \<open>
  Claim C2. Let \<open>docs\<close> be the transaction documents that the cursor of
  \<^verbatim>\<open>getInProgressStats\<close> delivers. In the statistics returned, read as Go integers,
  \<open>TotalTxns\<close> is their number \<open>n\<close>; the values of the map \<open>States\<close> add up to \<open>n\<close>;
  the entry of a state code is the number of documents that carry this code; \<open>TotalOps\<close>
  is the sum of the lengths of the operation lists; \<open>MaxOps\<close> is the largest of these
  lengths, and 0 when there is no document. The sum of the lengths and the number of
  documents are taken to fit Go's \<^verbatim>\<open>int\<close>, below \<open>2 ^ 63\<close>.
\<close>

theorem getInProgressStats_counts:
  assumes docs: "pending (FindTxns (DB c) (Name c)) = docs"
    and total: "(\<Sum>d\<leftarrow>docs. length (Ops d)) < 2 ^ 63"
    and count: "length docs < 2 ^ 63"
  shows
    "sint (TotalTxns (fst (getInProgressStats c))) = int (length docs) \<and>
     (\<Sum>s \<in> dom (States (fst (getInProgressStats c))).
         sint (the (States (fst (getInProgressStats c)) s))) = int (length docs) \<and>
     (\<forall>s v. States (fst (getInProgressStats c)) s = Some v \<longrightarrow>
         sint v = int (length (filter (\<lambda>d. State d = s) docs))) \<and>
     sint (TotalOps (fst (getInProgressStats c))) = (\<Sum>d\<leftarrow>docs. int (length (Ops d))) \<and>
     (docs \<noteq> [] \<longrightarrow>
        sint (MaxOps (fst (getInProgressStats c))) = Max ((\<lambda>d. int (length (Ops d))) ` set docs)) \<and>
     (docs = [] \<longrightarrow> MaxOps (fst (getInProgressStats c)) = 0)"
proof -
  let ?st = "fst (getInProgressStats c)"
  have st: "?st = scanTxns zeroInProgressStats docs"
    using docs by (simp add: getInProgressStats_def Let_def split: option.splits)
  have each: "\<forall>d \<in> set docs. length (Ops d) < 2 ^ 63"
    using total sum_list_bound_elem [of "\<lambda>d. length (Ops d)" docs] by blast
  have n: "sint (TotalTxns ?st) = int (length docs)"
    using count by (simp add: st scanTxns_TotalTxns zeroInProgressStats_def sint_of_nat_small)
  have t: "sint (TotalOps ?st) = (\<Sum>d\<leftarrow>docs. int (length (Ops d)))"
    using total
    by (simp add: st scanTxns_TotalOps zeroInProgressStats_def sint_of_nat_small int_sum_list)
  have S: "\<And>k. States ?st k =
      (if k \<in> State ` set docs
       then Some (of_nat (length (filter (\<lambda>d. State d = k) docs))) else None)"
    by (simp add: st scanTxns_States zeroInProgressStats_def mapIndex_def)
  have small: "\<And>k. length (filter (\<lambda>d. State d = k) docs) < 2 ^ 63"
    using count by (meson le_less_trans length_filter_le)
  have e: "\<forall>s v. States ?st s = Some v \<longrightarrow>
         sint v = int (length (filter (\<lambda>d. State d = s) docs))"
    using small by (auto simp: S sint_of_nat_small split: if_splits)
  have d: "dom (States ?st) = State ` set docs"
    by (auto simp: S dom_def split: if_splits)
  have "(\<Sum>s \<in> dom (States ?st). sint (the (States ?st s))) =
        (\<Sum>s \<in> State ` set docs. int (length (filter (\<lambda>d. State d = s) docs)))"
    unfolding d using small by (intro sum.cong) (simp_all add: S sint_of_nat_small)
  then have sm: "(\<Sum>s \<in> dom (States ?st). sint (the (States ?st s))) = int (length docs)"
    by (simp add: sum_State_counts)
  have m: "docs \<noteq> [] \<longrightarrow>
        sint (MaxOps ?st) = Max ((\<lambda>d. int (length (Ops d))) ` set docs)"
  proof
    assume ne: "docs \<noteq> []"
    have "Max (insert 0 ((\<lambda>d. int (length (Ops d))) ` set docs)) =
          max 0 (Max ((\<lambda>d. int (length (Ops d))) ` set docs))"
      using ne by simp
    moreover have "0 \<le> Max ((\<lambda>d. int (length (Ops d))) ` set docs)"
    proof -
      obtain d where d: "d \<in> set docs" using ne by (cases docs) auto
      have "int (length (Ops d)) \<le> Max ((\<lambda>d. int (length (Ops d))) ` set docs)"
        using d by (intro Max_ge) auto
      then show ?thesis by linarith
    qed
    ultimately show "sint (MaxOps ?st) = Max ((\<lambda>d. int (length (Ops d))) ` set docs)"
      by (simp add: st scanTxns_MaxOps [OF each] zeroInProgressStats_def)
  qed
  have z: "docs = [] \<longrightarrow> MaxOps ?st = 0"
    by (simp add: st zeroInProgressStats_def)
  show ?thesis using n sm e t m z by blast
qed

theorem getInProgressStats_counts_witness:
  "pending (FindTxns (DB (C exampleDB ''txns'')) (Name (C exampleDB ''txns''))) =
     [txnOf 1 3, txnOf 6 1] \<and>
   (\<Sum>d\<leftarrow>[txnOf 1 3, txnOf 6 1]. length (Ops d)) < 2 ^ 63 \<and>
   length [txnOf 1 3, txnOf 6 1] < 2 ^ 63 \<and>
   States (fst (getInProgressStats (C exampleDB ''txns''))) tpreparing = Some 1 \<and>
   sint (TotalTxns (fst (getInProgressStats (C exampleDB ''txns'')))) = 2 \<and>
   (\<Sum>s \<in> dom (States (fst (getInProgressStats (C exampleDB ''txns'')))).
       sint (the (States (fst (getInProgressStats (C exampleDB ''txns''))) s))) = 2 \<and>
   sint (TotalOps (fst (getInProgressStats (C exampleDB ''txns'')))) = 4 \<and>
   sint (MaxOps (fst (getInProgressStats (C exampleDB ''txns'')))) = 3"
proof -
  have h1: "pending (FindTxns (DB (C exampleDB ''txns'')) (Name (C exampleDB ''txns''))) =
     [txnOf 1 3, txnOf 6 1]"
    by (simp add: C_def exampleDB_def)
  have h2: "(\<Sum>d\<leftarrow>[txnOf 1 3, txnOf 6 1]. length (Ops d)) < 2 ^ 63"
    by (simp add: txnOf_def)
  have h3: "length [txnOf 1 3, txnOf 6 1] < 2 ^ 63"
    by simp
  have e: "States (fst (getInProgressStats (C exampleDB ''txns''))) tpreparing = Some 1"
    by (simp add: getInProgressStats_def C_def exampleDB_def Let_def Err_def txnStep_def
        zeroInProgressStats_def txnOf_def mapIndex_def tpreparing_def)
  show ?thesis
    using h1 h2 h3 e getInProgressStats_counts [OF h1 h2 h3]
    by (simp add: txnOf_def)
qed

text \<open>
  Claim C3, as amended. The map \<open>States\<close> starts empty (\<^verbatim>\<open>make(map[state]int)\<close>) and
  gets a key only where a document is counted: its keys are exactly the state codes that
  the scanned documents carry, so it has no key after an empty scan. Reading it at any
  other state, one of the seven named ones or not, gives Go's zero value 0.
\<close>

theorem getInProgressStats_States_dom:
  assumes docs: "pending (FindTxns (DB c) (Name c)) = docs"
  shows "dom (States (fst (getInProgressStats c))) = State ` set docs \<and>
     (\<forall>s. s \<notin> State ` set docs \<longrightarrow> mapIndex (States (fst (getInProgressStats c))) s = 0)"
proof -
  let ?st = "fst (getInProgressStats c)"
  have st: "?st = scanTxns zeroInProgressStats docs"
    using docs by (simp add: getInProgressStats_def Let_def split: option.splits)
  have S: "\<And>k. States ?st k =
      (if k \<in> State ` set docs
       then Some (of_nat (length (filter (\<lambda>d. State d = k) docs))) else None)"
    by (simp add: st scanTxns_States zeroInProgressStats_def mapIndex_def)
  have d: "dom (States ?st) = State ` set docs"
    by (auto simp: S dom_def split: if_splits)
  show ?thesis using d by (simp add: S mapIndex_def)
qed

theorem getInProgressStats_States_dom_witness:
  "pending (FindTxns (DB (C exampleDB ''txns'')) (Name (C exampleDB ''txns''))) =
     [txnOf 1 3, txnOf 6 1] \<and>
   dom (States (fst (getInProgressStats (C exampleDB ''txns'')))) = {1, 6} \<and>
   (0 :: state) \<notin> State ` set [txnOf 1 3, txnOf 6 1] \<and>
   mapIndex (States (fst (getInProgressStats (C exampleDB ''txns'')))) 0 = 0"
proof -
  have h1: "pending (FindTxns (DB (C exampleDB ''txns'')) (Name (C exampleDB ''txns''))) =
     [txnOf 1 3, txnOf 6 1]"
    by (simp add: C_def exampleDB_def)
  have h2: "(0 :: state) \<notin> State ` set [txnOf 1 3, txnOf 6 1]"
    by (simp add: txnOf_def)
  show ?thesis
    using h1 h2 getInProgressStats_States_dom [OF h1]
    by (simp add: txnOf_def)
qed

text \<open>
  Claim C3 as it is written fails: after a scan of no document the map has no entry for
  \<open>invalid\<close>, and after the two transactions of the scenario (states 1 and 6) it has
  none for \<open>prepared\<close>.
\<close>

theorem States_all_seven_counterexample:
  "States (fst (getInProgressStats (C emptyTxnsDB ''txns''))) tinvalid = None \<and>
   States (fst (getInProgressStats (C exampleDB ''txns''))) tprepared = None"
  by (simp add: getInProgressStats_def C_def exampleDB_def emptyTxnsDB_def Let_def Err_def
      txnStep_def zeroInProgressStats_def txnOf_def mapIndex_def tinvalid_def tprepared_def)

subsection \<open>The state classifier\<close>

text \<open>
  Claim C4. \<^verbatim>\<open>String\<close> maps the codes 0 to 6 to \<open>invalid\<close>, \<open>preparing\<close>,
  \<open>prepared\<close>, \<open>aborting\<close>, \<open>applying\<close>, \<open>aborted\<close>, \<open>applied\<close>, in this order.
  Every other code \<open>s\<close> is rendered as \<open>unknown state: \<close> followed by the signed
  decimal numeral of \<open>s\<close>, which is none of the seven names. It is a function: equal
  codes have equal renderings.
\<close>

theorem String_classifies:
  "String 0 = ''invalid'' \<and> String 1 = ''preparing'' \<and> String 2 = ''prepared'' \<and>
   String 3 = ''aborting'' \<and> String 4 = ''applying'' \<and> String 5 = ''aborted'' \<and>
   String 6 = ''applied'' \<and>
   (\<forall>s. s \<notin> {0, 1, 2, 3, 4, 5, 6} \<longrightarrow>
      String s = ''unknown state: '' @ fmt_d (sint s) \<and>
      String s \<notin> {''invalid'', ''preparing'', ''prepared'', ''aborting'', ''applying'',
                    ''aborted'', ''applied''}) \<and>
   (\<forall>s t. s = t \<longrightarrow> String s = String t)"
  by (simp add: String_def tinvalid_def tpreparing_def tprepared_def taborting_def tapplying_def
      taborted_def tapplied_def)

theorem String_classifies_witness:
  "(7 :: state) \<notin> {0, 1, 2, 3, 4, 5, 6} \<and> String 7 = ''unknown state: 7'' \<and>
   String 7 \<notin> {''invalid'', ''preparing'', ''prepared'', ''aborting'', ''applying'',
                 ''aborted'', ''applied''} \<and>
   String (-1) = ''unknown state: -1''"
proof -
  have h: "(7 :: state) \<notin> {0, 1, 2, 3, 4, 5, 6}" by simp
  have h': "(-1 :: state) \<notin> {0, 1, 2, 3, 4, 5, 6}" by simp
  from String_classifies have
    u: "\<And>s. s \<notin> {0, 1, 2, 3, 4, 5, 6} \<Longrightarrow> String s = ''unknown state: '' @ fmt_d (sint s) \<and>
      String s \<notin> {''invalid'', ''preparing'', ''prepared'', ''aborting'', ''applying'',
                    ''aborted'', ''applied''}"
    by blast
  show ?thesis using h u [OF h] u [OF h'] by (simp add: fmt_d_def dec_nat.simps)
qed

subsection \<open>A run of the program\<close>

lemma scanUnit_snd:
  "snd (scanUnit db i n cs) =
     (case snd (getCollectionStats (C db n)) of
        None \<Rightarrow> None
      | Some err \<Rightarrow> Some (Notef err (''cannot gather stats on '' @ n @ '': '' @ Error err)))"
  by (simp add: scanUnit_def C_def Let_def split: prod.splits option.splits)

lemma scanUnit_fst:
  "fst (scanUnit db i n cs) =
     (if snd (getCollectionStats (C db n)) = None
      then cs[i := fst (getCollectionStats (C db n))] else cs)"
  by (simp add: scanUnit_def C_def Let_def split: prod.splits option.splits)

lemma scanLoop_snd:
  "snd (scanLoop db i names cs) =
     map (\<lambda>n. snd (scanUnit db 0 n [])) (filter wantCollectionStats names)"
  by (induction names arbitrary: i cs)
     (simp_all add: case_prod_beta Let_def scanUnit_snd)

lemma scanLoop_below:
  "k < i \<Longrightarrow> fst (scanLoop db i names cs) ! k = cs ! k"
  by (induction names arbitrary: i cs)
     (simp_all add: case_prod_beta Let_def scanUnit_fst)

lemma scanLoop_slot:
  "i + length names \<le> length cs \<Longrightarrow> j < length names \<Longrightarrow>
   wantCollectionStats (names ! j) \<Longrightarrow>
   snd (getCollectionStats (C db (names ! j))) = None \<Longrightarrow>
   fst (scanLoop db i names cs) ! (i + j) = fst (getCollectionStats (C db (names ! j)))"
proof (induction names arbitrary: i j cs)
  case Nil
  then show ?case by simp
next
  case (Cons n names)
  show ?case
  proof (cases j)
    case 0
    then show ?thesis
      using Cons.prems
      by (simp add: case_prod_beta Let_def scanUnit_fst scanLoop_below)
  next
    case (Suc j')
    let ?cs = "if wantCollectionStats n then fst (scanUnit db i n cs) else cs"
    have l: "Suc i + length names \<le> length ?cs"
      using Cons.prems by (simp add: scanUnit_fst)
    have "fst (scanLoop db (Suc i) names ?cs) ! (Suc i + j') =
          fst (getCollectionStats (C db (names ! j')))"
      using Cons.prems Suc by (intro Cons.IH [OF l]) simp_all
    then show ?thesis
      using Suc by (cases "wantCollectionStats n") (simp_all add: case_prod_beta Let_def)
  qed
qed

lemma mergeLoop_Collections:
  assumes "\<forall>j < length names. wantCollectionStats (names ! j) \<longrightarrow> cs ! (i + j) = f (names ! j)"
  shows "Collections (mergeLoop i names cs stats) n =
     (if n \<in> set names \<and> wantCollectionStats n \<and> 0 <s TotalQueued (f n)
      then Some (f n) else Collections stats n)"
  using assms
proof (induction names arbitrary: i stats)
  case Nil
  then show ?case by simp
next
  case (Cons m names)
  have here: "wantCollectionStats m \<Longrightarrow> cs ! i = f m"
    using Cons.prems by fastforce
  have rest: "\<forall>j < length names. wantCollectionStats (names ! j) \<longrightarrow> cs ! (Suc i + j) = f (names ! j)"
    using Cons.prems by fastforce
  show ?case
    using here by (auto simp: Cons.IH [OF rest])
qed

lemma map_filter_id_Nil: "List.map_filter id rs = [] \<longleftrightarrow> (\<forall>r \<in> set rs. r = None)"
  by (induction rs) (auto simp: List.map_filter_simps split: option.splits)

lemma Wait_None: "Wait order rs = None \<longleftrightarrow> (\<forall>r \<in> set rs. r = None)"
  by (simp add: Wait_def Let_def map_filter_id_Nil)

lemma logUnit_Collections: "Collections (fst (logUnit db stats)) = Collections stats"
  by (simp add: logUnit_def split: prod.splits option.splits)

lemma inProgressUnit_Collections: "Collections (fst (inProgressUnit db stats)) = Collections stats"
  by (simp add: inProgressUnit_def split: prod.splits option.splits)

lemma exited_stdout: "stdout (exited ex evs) = None"
  by (cases ex) (simp add: exited_def)

lemma main_Collections:
  assumes ok: "stdout (main w argv) = Some r"
  shows "\<exists>args session names.
     commandLine (flagPkg w) argv = Inr args \<and> dial w args = Inr session \<and>
     CollectionNames (session ''juju'') = Inr names \<and>
     (\<forall>n \<in> set names. wantCollectionStats n \<longrightarrow>
        snd (getCollectionStats (C (session ''juju'') n)) = None) \<and>
     (\<forall>n. Collections r n =
        (if n \<in> set names \<and> wantCollectionStats n \<and>
            0 <s TotalQueued (fst (getCollectionStats (C (session ''juju'') n)))
         then Some (fst (getCollectionStats (C (session ''juju'') n))) else None))"
proof -
  obtain args where args: "commandLine (flagPkg w) argv = Inr args"
    using ok by (cases "commandLine (flagPkg w) argv") (simp_all add: main_def exited_stdout)
  obtain session where session: "dial w args = Inr session"
    using ok args by (cases "dial w args") (simp_all add: main_def exited_stdout)
  let ?db = "session ''juju''"
  obtain names where names: "CollectionNames ?db = Inr names"
    using ok args session
    by (cases "CollectionNames ?db") (simp_all add: main_def exited_stdout Let_def)
  let ?ns = "sort names"
  let ?cs0 = "replicate (length names) zeroCollectionStats"
  let ?loop = "scanLoop ?db 0 ?ns ?cs0"
  let ?st0 = "\<lparr>Collections = Map.empty, InProgress = zeroInProgressStats, Log = zeroLogStats\<rparr>"
  let ?l = "logUnit ?db ?st0"
  let ?p = "inProgressUnit ?db (fst ?l)"
  let ?rs = "snd ?loop @ [snd ?l, snd ?p]"
  have m: "main w argv =
     (case Wait (sched w) ?rs of
        Some err \<Rightarrow> exited (logFatal (logHeader w) (Error err))
          ([EvDial (dialInfo args), EvCollectionNames]
             @ map EvFind (filter wantCollectionStats ?ns)
             @ [EvCount ''txns.log'', EvFind ''txns''])
      | None \<Rightarrow>
          \<lparr>status = 0, stderr = '''',
           stdout = Some (mergeLoop 0 ?ns (fst ?loop) (fst ?p)),
           net = [EvDial (dialInfo args), EvCollectionNames]
             @ map EvFind (filter wantCollectionStats ?ns)
             @ [EvCount ''txns.log'', EvFind ''txns'']\<rparr>)"
    by (simp add: main_def args session names Let_def case_prod_beta cong: option.case_cong)
  have w: "Wait (sched w) ?rs = None"
    using ok by (cases "Wait (sched w) ?rs") (simp_all add: m exited_stdout)
  have r: "r = mergeLoop 0 ?ns (fst ?loop) (fst ?p)"
    using ok by (simp add: m w)
  have noerr: "\<forall>n \<in> set names. wantCollectionStats n \<longrightarrow>
        snd (getCollectionStats (C ?db n)) = None"
  proof (intro ballI impI)
    fix n assume n: "n \<in> set names" "wantCollectionStats n"
    have "snd (scanUnit ?db 0 n []) \<in> set (snd ?loop)"
      using n by (simp add: scanLoop_snd)
    then have "snd (scanUnit ?db 0 n []) = None"
      using w by (simp add: Wait_None)
    then show "snd (getCollectionStats (C ?db n)) = None"
      by (simp add: scanUnit_snd split: option.splits)
  qed
  have slots: "\<forall>j < length ?ns. wantCollectionStats (?ns ! j) \<longrightarrow>
      fst ?loop ! (0 + j) = fst (getCollectionStats (C ?db (?ns ! j)))"
  proof (intro allI impI)
    fix j assume j: "j < length ?ns" "wantCollectionStats (?ns ! j)"
    have "?ns ! j \<in> set names" using j(1) by (metis nth_mem set_sort)
    then have "snd (getCollectionStats (C ?db (?ns ! j))) = None"
      using noerr j(2) by blast
    then show "fst ?loop ! (0 + j) = fst (getCollectionStats (C ?db (?ns ! j)))"
      using j by (intro scanLoop_slot) simp_all
  qed
  have "\<forall>n. Collections r n =
        (if n \<in> set names \<and> wantCollectionStats n \<and>
            0 <s TotalQueued (fst (getCollectionStats (C ?db n)))
         then Some (fst (getCollectionStats (C ?db n))) else None)"
    unfolding r
    by (simp add: mergeLoop_Collections [OF slots] inProgressUnit_Collections logUnit_Collections)
  then show ?thesis using args session names noerr by blast
qed

lemma exited_net: "net (exited ex evs) = evs"
  by (cases ex) (simp add: exited_def)

lemma main_net:
  assumes args: "commandLine (flagPkg w) argv = Inr args"
    and session: "dial w args = Inr session"
    and names: "CollectionNames (session ''juju'') = Inr names"
  shows "net (main w argv) =
     [EvDial (dialInfo args), EvCollectionNames]
       @ map EvFind (filter wantCollectionStats (sort names))
       @ [EvCount ''txns.log'', EvFind ''txns'']"
  by (simp add: main_def args session names Let_def case_prod_beta exited_net
      split: option.splits)

lemma example_args:
  "commandLine (flagPkg exampleWorld) [''-password'', ''secret''] =
     Inr (flagDefaults\<lparr>password := ''secret''\<rparr>)"
  by (simp add: commandLine_def flagsParse_def exampleWorld_def exampleFlagPkg_def
      flagDefaults_def)

lemma example_session:
  "dial exampleWorld (flagDefaults\<lparr>password := ''secret''\<rparr>) = Inr (\<lambda>name. exampleDB)"
  by (simp add: dial_def exampleWorld_def)

lemma example_names:
  "CollectionNames ((\<lambda>name. exampleDB) ''juju'') =
     Inr [''txns'', ''charms'', ''system.indexes'', ''txns.log'', ''units'']"
  by (simp add: exampleDB_def)

lemma example_run:
  "stdout (main exampleWorld [''-password'', ''secret'']) =
     Some (the (stdout (main exampleWorld [''-password'', ''secret''])))"
proof -
  have "stdout (main exampleWorld [''-password'', ''secret'']) \<noteq> None"
    by code_simp
  then show ?thesis by simp
qed

lemma example_TotalQueued:
  "TotalQueued (fst (getCollectionStats (C exampleDB ''charms''))) = 3"
  "TotalQueued (fst (getCollectionStats (C exampleDB ''units''))) = 0"
  "TotalQueued (fst (getCollectionStats (C exampleDB ''txns.log''))) = 1"
  by (simp_all add: getCollectionStats_def C_def exampleDB_def Let_def Err_def queueStep_def
      zeroCollectionStats_def queueDocs_def len_def)

text \<open>
  Claim C6. Whatever the database holds, when \<^verbatim>\<open>main\<close> writes a report, neither \<open>txns\<close>
  nor a name that starts with \<open>system.\<close> (such as \<open>system.indexes\<close>) is a key of the
  map \<open>Collections\<close> of the report: \<^verbatim>\<open>wantCollectionStats\<close> rejects the name, in the
  loop that starts the scans and in the loop that fills the map.
\<close>

theorem main_excludes_txns_and_system:
  assumes "stdout (main w argv) = Some r"
    and "name = ''txns'' \<or> prefix ''system.'' name"
  shows "\<not> wantCollectionStats name \<and> Collections r name = None"
proof -
  have nw: "\<not> wantCollectionStats name"
    using assms(2) by (auto simp: wantCollectionStats_def)
  from main_Collections [OF assms(1)] show ?thesis using nw by auto
qed

theorem main_excludes_txns_and_system_witness:
  "stdout (main exampleWorld [''-password'', ''secret'']) \<noteq> None \<and>
   (''system.indexes'' = ''txns'' \<or> prefix ''system.'' ''system.indexes'') \<and>
   \<not> wantCollectionStats ''system.indexes'' \<and>
   Collections (the (stdout (main exampleWorld [''-password'', ''secret'']))) ''system.indexes'' = None \<and>
   Collections (the (stdout (main exampleWorld [''-password'', ''secret'']))) ''txns'' = None"
proof -
  have run: "stdout (main exampleWorld [''-password'', ''secret'']) \<noteq> None"
    by code_simp
  then have ok: "stdout (main exampleWorld [''-password'', ''secret'']) =
      Some (the (stdout (main exampleWorld [''-password'', ''secret''])))"
    by simp
  have sys: "''system.indexes'' = ''txns'' \<or> prefix ''system.'' ''system.indexes''"
    by simp
  have txns: "''txns'' = ''txns'' \<or> prefix ''system.'' ''txns''"
    by simp
  show ?thesis
    using run sys main_excludes_txns_and_system [OF ok sys]
      main_excludes_txns_and_system [OF ok txns]
    by simp
qed

text \<open>
  Claim C7. In a run that writes a report, a collection that was scanned (its name is
  listed by the database and passes \<^verbatim>\<open>wantCollectionStats\<close>) is a key of the map
  \<open>Collections\<close> if and only if the \<open>TotalQueued\<close> computed for it is greater than 0;
  with \<open>TotalQueued = 0\<close> it is absent, and when present the entry is the statistics
  computed for it.
\<close>

theorem main_zero_suppression:
  assumes ok: "stdout (main w argv) = Some r"
    and args: "commandLine (flagPkg w) argv = Inr args"
    and session: "dial w args = Inr session"
    and names: "CollectionNames (session ''juju'') = Inr names"
    and scanned: "name \<in> set names" "wantCollectionStats name"
  shows "(name \<in> dom (Collections r) \<longleftrightarrow>
            0 < sint (TotalQueued (fst (getCollectionStats (C (session ''juju'') name))))) \<and>
         (TotalQueued (fst (getCollectionStats (C (session ''juju'') name))) = 0 \<longrightarrow>
            Collections r name = None) \<and>
         (name \<in> dom (Collections r) \<longrightarrow>
            Collections r name = Some (fst (getCollectionStats (C (session ''juju'') name))))"
proof -
  from main_Collections [OF ok] obtain args' session' names' where
    a: "commandLine (flagPkg w) argv = Inr args'" "dial w args' = Inr session'"
       "CollectionNames (session' ''juju'') = Inr names'"
    and c: "\<forall>n. Collections r n =
        (if n \<in> set names' \<and> wantCollectionStats n \<and>
            0 <s TotalQueued (fst (getCollectionStats (C (session' ''juju'') n)))
         then Some (fst (getCollectionStats (C (session' ''juju'') n))) else None)"
    by blast
  have "args' = args" using a(1) args by simp
  then have "session' = session" using a(2) session by simp
  then have "names' = names" using a(3) names by simp
  show ?thesis
    using c scanned \<open>session' = session\<close> \<open>names' = names\<close>
    by (auto simp: word_sless_alt dom_def)
qed

theorem main_zero_suppression_witness:
  "''charms'' \<in> dom (Collections (the (stdout (main exampleWorld [''-password'', ''secret''])))) \<and>
   ''units'' \<notin> dom (Collections (the (stdout (main exampleWorld [''-password'', ''secret'']))))"
proof -
  have charms: "''charms'' \<in> set [''txns'', ''charms'', ''system.indexes'', ''txns.log'', ''units'']"
    "wantCollectionStats ''charms''"
    by (simp_all add: wantCollectionStats_def)
  have units: "''units'' \<in> set [''txns'', ''charms'', ''system.indexes'', ''txns.log'', ''units'']"
    "wantCollectionStats ''units''"
    by (simp_all add: wantCollectionStats_def)
  show ?thesis
    using main_zero_suppression [OF example_run example_args example_session example_names charms]
      main_zero_suppression [OF example_run example_args example_session example_names units]
    by (simp add: example_TotalQueued)
qed

text \<open>
  Claim C9. The name \<open>txns.log\<close> passes \<^verbatim>\<open>wantCollectionStats\<close>. When the database
  lists it, the run counts it (\<^verbatim>\<open>getLogStats\<close>) and also scans it with
  \<^verbatim>\<open>getCollectionStats\<close>, and in a report it is a key of \<open>Collections\<close> whenever its
  \<open>TotalQueued\<close> is greater than 0.
\<close>

theorem txns_log_scanned_and_reported:
  assumes args: "commandLine (flagPkg w) argv = Inr args"
    and session: "dial w args = Inr session"
    and names: "CollectionNames (session ''juju'') = Inr names"
    and listed: "''txns.log'' \<in> set names"
  shows "wantCollectionStats ''txns.log'' \<and>
         EvCount ''txns.log'' \<in> set (net (main w argv)) \<and>
         EvFind ''txns.log'' \<in> set (net (main w argv)) \<and>
         (\<forall>r. stdout (main w argv) = Some r \<longrightarrow>
              0 < sint (TotalQueued (fst (getCollectionStats (C (session ''juju'') ''txns.log'')))) \<longrightarrow>
              Collections r ''txns.log'' =
                Some (fst (getCollectionStats (C (session ''juju'') ''txns.log''))))"
proof -
  have want: "wantCollectionStats ''txns.log''"
    by (simp add: wantCollectionStats_def)
  have ev: "EvCount ''txns.log'' \<in> set (net (main w argv))"
    "EvFind ''txns.log'' \<in> set (net (main w argv))"
    using listed want by (simp_all add: main_net [OF args session names])
  have rep: "\<forall>r. stdout (main w argv) = Some r \<longrightarrow>
              0 < sint (TotalQueued (fst (getCollectionStats (C (session ''juju'') ''txns.log'')))) \<longrightarrow>
              Collections r ''txns.log'' =
                Some (fst (getCollectionStats (C (session ''juju'') ''txns.log'')))"
  proof (intro allI impI)
    fix r
    assume ok: "stdout (main w argv) = Some r"
      and pos: "0 < sint (TotalQueued (fst (getCollectionStats (C (session ''juju'') ''txns.log''))))"
    from main_Collections [OF ok] obtain args' session' names' where
      a: "commandLine (flagPkg w) argv = Inr args'" "dial w args' = Inr session'"
         "CollectionNames (session' ''juju'') = Inr names'"
      and c: "\<forall>n. Collections r n =
          (if n \<in> set names' \<and> wantCollectionStats n \<and>
              0 <s TotalQueued (fst (getCollectionStats (C (session' ''juju'') n)))
           then Some (fst (getCollectionStats (C (session' ''juju'') n))) else None)"
      by blast
    have "args' = args" using a(1) args by simp
    then have s: "session' = session" using a(2) session by simp
    then have n: "names' = names" using a(3) names by simp
    show "Collections r ''txns.log'' =
        Some (fst (getCollectionStats (C (session ''juju'') ''txns.log'')))"
      using c listed want pos s n by (simp add: word_sless_alt)
  qed
  show ?thesis using want ev rep by blast
qed

theorem txns_log_scanned_and_reported_witness:
  "''txns.log'' \<in> set [''txns'', ''charms'', ''system.indexes'', ''txns.log'', ''units''] \<and>
   EvCount ''txns.log'' \<in> set (net (main exampleWorld [''-password'', ''secret''])) \<and>
   EvFind ''txns.log'' \<in> set (net (main exampleWorld [''-password'', ''secret''])) \<and>
   0 < sint (TotalQueued (fst (getCollectionStats (C exampleDB ''txns.log'')))) \<and>
   Collections (the (stdout (main exampleWorld [''-password'', ''secret'']))) ''txns.log'' =
     Some (fst (getCollectionStats (C exampleDB ''txns.log'')))"
proof -
  have listed: "''txns.log'' \<in> set [''txns'', ''charms'', ''system.indexes'', ''txns.log'', ''units'']"
    by simp
  have pos: "0 < sint (TotalQueued (fst (getCollectionStats (C exampleDB ''txns.log''))))"
    by (simp add: example_TotalQueued)
  show ?thesis
    using listed pos example_run
      txns_log_scanned_and_reported [OF example_args example_session example_names listed]
    by simp
qed

text \<open>
  Claim C8. When the parsed flags have a username that is not empty and an empty
  password, the run writes the error message to the error stream and exits with status
  2; nothing is written to the standard output and no request is made, not even the dial.
\<close>

theorem username_without_password_exits:
  assumes "flagsParse (flagPkg w) flagDefaults argv = Inr a"
    and "username a \<noteq> ''''" and "password a = ''''"
  shows "main w argv =
     \<lparr>status = 2,
      stderr = ''error: -password must be used if username is provided'' @ [CHR 0x0A],
      stdout = None, net = []\<rparr>"
  using assms by (simp add: main_def commandLine_def exited_def)

theorem username_without_password_exits_witness:
  "flagsParse (flagPkg exampleWorld) flagDefaults [''-username'', ''bob''] =
     Inr (flagDefaults\<lparr>username := ''bob''\<rparr>) \<and>
   username (flagDefaults\<lparr>username := ''bob''\<rparr>) \<noteq> '''' \<and>
   password (flagDefaults\<lparr>username := ''bob''\<rparr>) = '''' \<and>
   main exampleWorld [''-username'', ''bob''] =
     \<lparr>status = 2,
      stderr = ''error: -password must be used if username is provided'' @ [CHR 0x0A],
      stdout = None, net = []\<rparr>"
proof -
  have p: "flagsParse (flagPkg exampleWorld) flagDefaults [''-username'', ''bob''] =
     Inr (flagDefaults\<lparr>username := ''bob''\<rparr>)"
    by (simp add: flagsParse_def exampleWorld_def exampleFlagPkg_def)
  have u: "username (flagDefaults\<lparr>username := ''bob''\<rparr>) \<noteq> ''''"
    by simp
  have q: "password (flagDefaults\<lparr>username := ''bob''\<rparr>) = ''''"
    by (simp add: flagDefaults_def)
  show ?thesis
    using p u q username_without_password_exits [OF p u q] by simp
qed

text \<open>
  Claim C10. The defaults are username \<open>admin\<close> and the empty password, so with no
  argument on the command line \<^verbatim>\<open>commandLine\<close> writes the error message and exits with
  status 2, and the run makes no request.
\<close>

theorem default_invocation_exits:
  "username flagDefaults = ''admin'' \<and> password flagDefaults = '''' \<and>
   commandLine pkg [] =
     Inl (Exit 2 (''error: -password must be used if username is provided'' @ [CHR 0x0A])) \<and>
   main w [] =
     \<lparr>status = 2,
      stderr = ''error: -password must be used if username is provided'' @ [CHR 0x0A],
      stdout = None, net = []\<rparr>"
  by (simp add: main_def commandLine_def flagsParse_def flagDefaults_def exited_def)

lemma Error_Errors_prefix: "es \<noteq> [] \<Longrightarrow> prefix (Error (hd es)) (Error (Errors es))"
proof (cases es)
  case Nil
  then show "es \<noteq> [] \<Longrightarrow> ?thesis" by simp
next
  case (Cons e rest)
  then show ?thesis by (cases rest) simp_all
qed

lemma getCollectionStats_snd:
  "snd (getCollectionStats c) =
     (case failure (FindQueue (DB c) (Name c)) of
        None \<Rightarrow> None
      | Some err \<Rightarrow> Some (Notef err (''iteraction over collection '' @ fmt_q (Name c) @ '' failed'')))"
  by (simp add: getCollectionStats_def Let_def Err_def split: option.splits)

lemma scanUnit_error:
  assumes "snd (scanUnit db i n cs) = Some e"
  shows "failure (FindQueue db n) \<noteq> None \<and> sublist n (Error e)"
proof -
  obtain err where err: "snd (getCollectionStats (C db n)) = Some err"
    and e: "e = Notef err (''cannot gather stats on '' @ n @ '': '' @ Error err)"
    using assms by (auto simp: scanUnit_snd split: option.splits)
  have f: "failure (FindQueue db n) \<noteq> None"
    using err by (auto simp: getCollectionStats_snd C_def split: option.splits)
  have "Error e = ''cannot gather stats on '' @ n @ ('': '' @ Error err @ '': '' @ Error err)"
    by (simp add: e Notef_def)
  then have "sublist n (Error e)"
    by (metis sublist_appendI)
  then show ?thesis using f by simp
qed

lemma scanUnit_fails:
  "failure (FindQueue db n) \<noteq> None \<Longrightarrow> snd (scanUnit db i n cs) \<noteq> None"
  by (auto simp: scanUnit_snd getCollectionStats_snd C_def split: option.splits)

lemma logUnit_error:
  assumes "snd (logUnit db stats) = Some e"
  shows "isl (Count db ''txns.log'') \<and> sublist ''txns.log'' (Error e)"
proof -
  obtain err where err: "Count db ''txns.log'' = Inl err"
    and e: "e = Mask (Notef err (''cannot count items in collection '' @ fmt_q ''txns.log''))"
    using assms
    by (auto simp: logUnit_def getLogStats_def C_def split: sum.splits prod.splits option.splits)
  have q: "fmt_q ''txns.log'' = [CHR 0x22] @ ''txns.log'' @ [CHR 0x22]"
    by (simp add: fmt_q_def quote_byte_def)
  have "Error e = (''cannot count items in collection '' @ [CHR 0x22]) @ ''txns.log'' @
      ([CHR 0x22] @ '': '' @ Error err)"
    by (simp add: e Mask_def Notef_def q)
  then have "sublist ''txns.log'' (Error e)"
    by (metis sublist_appendI)
  then show ?thesis using err by simp
qed

lemma logUnit_fails: "isl (Count db ''txns.log'') \<Longrightarrow> snd (logUnit db stats) \<noteq> None"
  by (auto simp: logUnit_def getLogStats_def C_def isl_def split: sum.splits prod.splits option.splits)

lemma inProgressUnit_error:
  assumes "snd (inProgressUnit db stats) = Some e"
  shows "failure (FindTxns db ''txns'') \<noteq> None \<and> sublist ''txns'' (Error e)"
proof -
  obtain err where err: "failure (FindTxns db ''txns'') = Some err"
    and e: "e = Mask (Notef err (''iteraction over collection '' @ fmt_q ''txns'' @ '' failed''))"
    using assms
    by (auto simp: inProgressUnit_def getInProgressStats_def C_def Let_def Err_def
        split: prod.splits option.splits)
  have q: "fmt_q ''txns'' = [CHR 0x22] @ ''txns'' @ [CHR 0x22]"
    by (simp add: fmt_q_def quote_byte_def)
  have "Error e = (''iteraction over collection '' @ [CHR 0x22]) @ ''txns'' @
      ([CHR 0x22] @ '' failed: '' @ Error err)"
    by (simp add: e Mask_def Notef_def q)
  then have "sublist ''txns'' (Error e)"
    by (metis sublist_appendI)
  then show ?thesis using err by simp
qed

lemma inProgressUnit_fails:
  "failure (FindTxns db ''txns'') \<noteq> None \<Longrightarrow> snd (inProgressUnit db stats) \<noteq> None"
  by (auto simp: inProgressUnit_def getInProgressStats_def C_def Let_def Err_def
      split: prod.splits option.splits)

lemma map_filter_id_set: "set (List.map_filter id rs) = {e. Some e \<in> set rs}"
  by (induction rs) (auto simp: List.map_filter_simps split: option.splits)

lemma exited_logFatal:
  "exited (logFatal header msg) evs =
     \<lparr>status = 1,
      stderr = header @ msg @ (if msg = [] \<or> last msg \<noteq> CHR 0x0A then [CHR 0x0A] else []),
      stdout = None, net = evs\<rparr>"
  by (simp add: exited_def logFatal_def)

text \<open>
  Claim C5. Take a run that has connected and listed the collections. If a unit fails
  (the cursor over a scanned collection, the cursor over \<open>txns\<close>, or the count of
  \<open>txns.log\<close>), the run exits with status 1, writes no report, and the error stream
  contains the name of a collection whose unit failed. Package parallel reports the errors
  of the failed units in some order (\<open>sched\<close> permutes them); the message carries the
  first of them.
\<close>

theorem failing_unit_aborts_run:
  assumes args: "commandLine (flagPkg w) argv = Inr args"
    and session: "dial w args = Inr session"
    and names: "CollectionNames (session ''juju'') = Inr names"
    and order: "\<forall>es. mset (sched w es) = mset es"
    and fails:
      "(\<exists>n \<in> set names. wantCollectionStats n \<and> failure (FindQueue (session ''juju'') n) \<noteq> None) \<or>
       failure (FindTxns (session ''juju'') ''txns'') \<noteq> None \<or>
       isl (Count (session ''juju'') ''txns.log'')"
  shows "status (main w argv) = 1 \<and> stdout (main w argv) = None \<and>
     (\<exists>n. sublist n (stderr (main w argv)) \<and>
        (n \<in> set names \<and> wantCollectionStats n \<and> failure (FindQueue (session ''juju'') n) \<noteq> None \<or>
         n = ''txns'' \<and> failure (FindTxns (session ''juju'') ''txns'') \<noteq> None \<or>
         n = ''txns.log'' \<and> isl (Count (session ''juju'') ''txns.log'')))"
proof -
  let ?db = "session ''juju''"
  let ?ns = "sort names"
  let ?cs0 = "replicate (length names) zeroCollectionStats"
  let ?loop = "scanLoop ?db 0 ?ns ?cs0"
  let ?st0 = "\<lparr>Collections = Map.empty, InProgress = zeroInProgressStats, Log = zeroLogStats\<rparr>"
  let ?l = "logUnit ?db ?st0"
  let ?p = "inProgressUnit ?db (fst ?l)"
  let ?rs = "snd ?loop @ [snd ?l, snd ?p]"
  let ?evs = "[EvDial (dialInfo args), EvCollectionNames]
             @ map EvFind (filter wantCollectionStats ?ns)
             @ [EvCount ''txns.log'', EvFind ''txns'']"
  let ?errs = "List.map_filter id ?rs"
  have m: "main w argv =
     (case Wait (sched w) ?rs of
        Some err \<Rightarrow> exited (logFatal (logHeader w) (Error err)) ?evs
      | None \<Rightarrow>
          \<lparr>status = 0, stderr = '''',
           stdout = Some (mergeLoop 0 ?ns (fst ?loop) (fst ?p)),
           net = ?evs\<rparr>)"
    by (simp add: main_def args session names Let_def case_prod_beta cong: option.case_cong)
  have some: "\<exists>r \<in> set ?rs. r \<noteq> None"
    using fails
  proof (elim disjE bexE conjE)
    fix n assume n: "n \<in> set names" "wantCollectionStats n"
      "failure (FindQueue ?db n) \<noteq> None"
    have "snd (scanUnit ?db 0 n []) \<in> set (snd ?loop)"
      using n by (simp add: scanLoop_snd)
    moreover have "snd (scanUnit ?db 0 n []) \<noteq> None"
      by (rule scanUnit_fails [OF n(3)])
    ultimately show ?thesis by (metis UnI1 set_append)
  next
    assume "failure (FindTxns ?db ''txns'') \<noteq> None"
    then have "snd ?p \<noteq> None" by (rule inProgressUnit_fails)
    moreover have "snd ?p \<in> set ?rs" by simp
    ultimately show ?thesis by blast
  next
    assume "isl (Count ?db ''txns.log'')"
    then have "snd ?l \<noteq> None" by (rule logUnit_fails)
    moreover have "snd ?l \<in> set ?rs" by simp
    ultimately show ?thesis by blast
  qed
  then have ne: "?errs \<noteq> []"
    by (simp only: map_filter_id_Nil) blast
  have wt: "Wait (sched w) ?rs = Some (Errors (sched w ?errs))"
    using ne by (simp add: Wait_def Let_def)
  have mset: "mset (sched w ?errs) = mset ?errs" using order by blast
  then have ne': "sched w ?errs \<noteq> []" using ne by (metis mset_zero_iff)
  let ?e = "hd (sched w ?errs)"
  have "?e \<in> set (sched w ?errs)" using ne' by simp
  then have "?e \<in> set ?errs" using mset by (metis mset_eq_setD)
  then have unit: "Some ?e \<in> set ?rs" by (simp only: map_filter_id_set) simp
  have named: "\<exists>n. sublist n (Error ?e) \<and>
        (n \<in> set names \<and> wantCollectionStats n \<and> failure (FindQueue ?db n) \<noteq> None \<or>
         n = ''txns'' \<and> failure (FindTxns ?db ''txns'') \<noteq> None \<or>
         n = ''txns.log'' \<and> isl (Count ?db ''txns.log''))"
  proof -
    consider (scan) "Some ?e \<in> set (snd ?loop)" | (log) "Some ?e = snd ?l" | (txn) "Some ?e = snd ?p"
      using unit by auto
    then show ?thesis
    proof cases
      case scan
      then obtain n where n: "n \<in> set names" "wantCollectionStats n"
        "snd (scanUnit ?db 0 n []) = Some ?e"
        by (auto simp: scanLoop_snd)
      show ?thesis using scanUnit_error [OF n(3)] n(1,2) by blast
    next
      case log
      then show ?thesis using logUnit_error [of ?db ?st0 ?e] by auto
    next
      case txn
      then show ?thesis using inProgressUnit_error [of ?db "fst ?l" ?e] by auto
    qed
  qed
  have out: "main w argv = exited (logFatal (logHeader w) (Error (Errors (sched w ?errs)))) ?evs"
    by (simp add: m wt)
  obtain t where t: "Error (Errors (sched w ?errs)) = Error ?e @ t"
    using Error_Errors_prefix [OF ne'] by (auto simp: prefix_def)
  have sub: "\<And>n. sublist n (Error ?e) \<Longrightarrow> sublist n (stderr (main w argv))"
  proof -
    fix n assume "sublist n (Error ?e)"
    then obtain a b where "Error ?e = a @ n @ b" by (auto simp: sublist_def)
    then have "\<exists>c. stderr (main w argv) = (logHeader w @ a) @ n @ c"
      by (simp add: out exited_logFatal t)
    then show "sublist n (stderr (main w argv))" by (metis sublist_appendI)
  qed
  have "status (main w argv) = 1" "stdout (main w argv) = None"
    by (simp_all add: out exited_logFatal)
  then show ?thesis using named sub by blast
qed

theorem failing_unit_aborts_run_witness:
  "status (main failingWorld [''-password'', ''secret'']) = 1 \<and>
   stdout (main failingWorld [''-password'', ''secret'']) = None \<and>
   sublist ''foo'' (stderr (main failingWorld [''-password'', ''secret'']))"
proof -
  let ?argv = "[''-password'', ''secret'']"
  have args: "commandLine (flagPkg failingWorld) ?argv = Inr (flagDefaults\<lparr>password := ''secret''\<rparr>)"
    by (simp add: commandLine_def flagsParse_def exampleWorld_def failingWorld_def
        exampleFlagPkg_def flagDefaults_def)
  have session: "dial failingWorld (flagDefaults\<lparr>password := ''secret''\<rparr>) = Inr (\<lambda>name. failingDB)"
    by (simp add: dial_def failingWorld_def)
  have names: "CollectionNames ((\<lambda>name. failingDB) ''juju'') = Inr [''txns'', ''foo'', ''charms'']"
    by (simp add: failingDB_def)
  have order: "\<forall>es. mset (sched failingWorld es) = mset es"
    by (simp add: failingWorld_def exampleWorld_def)
  have foo: "''foo'' \<in> set [''txns'', ''foo'', ''charms''] \<and> wantCollectionStats ''foo'' \<and>
      failure (FindQueue ((\<lambda>name. failingDB) ''juju'') ''foo'') \<noteq> None"
    by (simp add: wantCollectionStats_def failingDB_def)
  then have fails:
    "(\<exists>n \<in> set [''txns'', ''foo'', ''charms'']. wantCollectionStats n \<and>
         failure (FindQueue ((\<lambda>name. failingDB) ''juju'') n) \<noteq> None) \<or>
       failure (FindTxns ((\<lambda>name. failingDB) ''juju'') ''txns'') \<noteq> None \<or>
       isl (Count ((\<lambda>name. failingDB) ''juju'') ''txns.log'')"
    by blast
  have only: "\<And>n. n \<in> set [''txns'', ''foo'', ''charms''] \<and> wantCollectionStats n \<and>
          failure (FindQueue ((\<lambda>name. failingDB) ''juju'') n) \<noteq> None \<or>
         n = ''txns'' \<and> failure (FindTxns ((\<lambda>name. failingDB) ''juju'') ''txns'') \<noteq> None \<or>
         n = ''txns.log'' \<and> isl (Count ((\<lambda>name. failingDB) ''juju'') ''txns.log'') \<Longrightarrow> n = ''foo''"
    by (auto simp: failingDB_def exampleDB_def wantCollectionStats_def)
  from failing_unit_aborts_run [OF args session names order fails] only
  show ?thesis by blast
qed

end
